theory Spec2Isabelle
  imports Complex_Main "HOL-Library.Multiset"
begin

section \<open>Optical depth tables: the class \<open>OptDepth\<close> of \<open>tau_from_model.py\<close>\<close>

text \<open>
  The embedding follows \<open>src/ebltable/tau_from_model.py\<close>. numpy's float64 values are
  modelled as \<open>real\<close> (no rounding, no NaN, no infinity), a 1-D array as a list, a 2-D
  array as a list of rows. An instance of \<open>OptDepth\<close> is a record of its four
  attributes; a method that assigns to \<open>self\<close> returns the updated record, and a method
  that raises after it has assigned returns the error together with the record as the
  assignment left it.
\<close>

subsection \<open>Errors and warnings\<close>

datatype error = ShapeError | ValueError | IndexError | TypeError

datatype warning = RuntimeWarning

subsection \<open>The interpolation surface\<close>

text \<open>
  \<open>RBSpline\<close> is scipy's \<open>RectBivariateSpline\<close>, which is not part of the source
  tree. The object it returns is modelled by the data it was fitted to; its values
  between the samples are a parameter \<open>ev\<close> of every operation that evaluates it.
\<close>

record spline =
  sp_x :: "real list"
  sp_y :: "real list"
  sp_z :: "real list list"
  sp_kx :: nat
  sp_ky :: nat

text \<open>
  Modelled from the spec: the constructor of the surface (scipy's
  \<open>RectBivariateSpline.__init__\<close>) is missing from the source. The spec says that it
  fails with a \<open>ShapeError\<close> when the shape of the tau grid is not
  \<open>(len(energy grid), len(redshift grid))\<close>, and that this is the only validation.
\<close>

definition shape_ok :: "real list list \<Rightarrow> nat \<Rightarrow> nat \<Rightarrow> bool" where
  "shape_ok t n m = (length t = n \<and> list_all (\<lambda>row. length row = m) t)"

definition RBSpline ::
  "real list \<Rightarrow> real list \<Rightarrow> real list list \<Rightarrow> nat \<Rightarrow> nat \<Rightarrow> error + spline" where
  "RBSpline x y t kx ky =
     (if shape_ok t (length x) (length y)
      then Inr \<lparr>sp_x = x, sp_y = y, sp_z = t, sp_kx = kx, sp_ky = ky\<rparr>
      else Inl ShapeError)"

subsection \<open>The model store\<close>

record optdepth =
  self_z :: "real list"
  self_logEGeV :: "real list"
  self_tau :: "real list list"
  self_tauSpline :: spline

definition log10 :: "real \<Rightarrow> real" where
  "log10 x = log 10 x"

text \<open>\<open>OptDepth.__init__\<close>: an exception leaves no instance.\<close>

definition OptDepth_init ::
  "real list \<Rightarrow> real list \<Rightarrow> real list list \<Rightarrow> nat \<Rightarrow> nat \<Rightarrow> error + optdepth" where
  "OptDepth_init z EGeV tau kx ky =
     (let z' = z;
          logEGeV = map log10 EGeV;
          tau' = tau
      in case RBSpline logEGeV z' tau' kx ky of
           Inl e \<Rightarrow> Inl e
         | Inr s \<Rightarrow> Inr \<lparr>self_z = z', self_logEGeV = logEGeV, self_tau = tau',
                          self_tauSpline = s\<rparr>)"

text \<open>
  The three property setters. Python calls a setter with the instance and the assigned
  value only, so \<open>kx\<close> and \<open>ky\<close> always take their defaults, 2. The attribute is
  assigned first and the surface is rebuilt second: when the rebuild raises, the instance
  keeps the new attribute and the old surface, which is what \<open>Inl\<close> carries.
\<close>

definition z_setter :: "optdepth \<Rightarrow> real list \<Rightarrow> (error \<times> optdepth) + optdepth" where
  "z_setter self z =
     (let kx = 2; ky = 2;
          self = self\<lparr>self_z := z\<rparr>
      in case RBSpline (self_logEGeV self) (self_z self) (self_tau self) kx ky of
           Inl e \<Rightarrow> Inl (e, self)
         | Inr s \<Rightarrow> Inr (self\<lparr>self_tauSpline := s\<rparr>))"

definition logEGeV_setter :: "optdepth \<Rightarrow> real list \<Rightarrow> (error \<times> optdepth) + optdepth" where
  "logEGeV_setter self EGeV =
     (let kx = 2; ky = 2;
          self = self\<lparr>self_logEGeV := map log10 EGeV\<rparr>
      in case RBSpline (self_logEGeV self) (self_z self) (self_tau self) kx ky of
           Inl e \<Rightarrow> Inl (e, self)
         | Inr s \<Rightarrow> Inr (self\<lparr>self_tauSpline := s\<rparr>))"

definition tau_setter :: "optdepth \<Rightarrow> real list list \<Rightarrow> (error \<times> optdepth) + optdepth" where
  "tau_setter self tau =
     (let kx = 2; ky = 2;
          self = self\<lparr>self_tau := tau\<rparr>
      in case RBSpline (self_logEGeV self) (self_z self) (self_tau self) kx ky of
           Inl e \<Rightarrow> Inl (e, self)
         | Inr s \<Rightarrow> Inr (self\<lparr>self_tauSpline := s\<rparr>))"

text \<open>The instance as it is after a setter has returned or raised.\<close>

definition after :: "(error \<times> optdepth) + optdepth \<Rightarrow> optdepth" where
  "after r = (case r of Inl (e, self) \<Rightarrow> self | Inr self \<Rightarrow> self)"

definition logEGeV_getter :: "optdepth \<Rightarrow> real list" where
  "logEGeV_getter self = self_logEGeV self"

subsection \<open>numpy operations used by the forward evaluator\<close>

text \<open>
  An argument of \<open>opt_depth\<close> is a Python scalar or a 1-D sequence (a list, which the
  method converts with \<open>np.array\<close>, or a 1-D array, which it takes as it is).
\<close>

datatype arg = Scalar real | Array "real list"

text \<open>Lines 281 to 288: a scalar becomes an array of one element.\<close>

fun as_array :: "arg \<Rightarrow> real list" where
  "as_array (Scalar x) = [x]"
| "as_array (Array xs) = xs"

definition zeros :: "nat \<Rightarrow> nat \<Rightarrow> real list list" where
  "zeros n m = replicate n (replicate m 0)"

text \<open>
  \<open>np.argsort\<close>: the indices that sort the array. numpy does not fix the order of the
  indices of equal elements; the model keeps them in their original order.
\<close>

definition argsort :: "real list \<Rightarrow> nat list" where
  "argsort xs = map snd (sort_key fst (zip xs [0..<length xs]))"

text \<open>
  Modelled from the spec: calling the surface on two coordinate arrays (scipy's
  \<open>RectBivariateSpline.__call__\<close>, missing from the source) requires both sorted
  ascending, and returns the values on the grid they span, one row for each element of
  the first array.
\<close>

definition spline_call ::
  "(spline \<Rightarrow> real \<Rightarrow> real \<Rightarrow> real) \<Rightarrow> spline \<Rightarrow> real list \<Rightarrow> real list \<Rightarrow> error + real list list" where
  "spline_call ev s xs ys =
     (if sorted xs \<and> sorted ys then Inr (map (\<lambda>x. map (\<lambda>y. ev s x y) ys) xs)
      else Inl ValueError)"

text \<open>\<open>.transpose()\<close> of a 2-D array that has \<open>m\<close> columns.\<close>

definition transpose_m :: "nat \<Rightarrow> real list list \<Rightarrow> real list list" where
  "transpose_m m M = map (\<lambda>k. map (\<lambda>row. row ! k) M) [0..<m]"

text \<open>
  numpy's broadcasting of a 2-D value to the shape \<open>(n, m)\<close> of the target of an
  assignment: each axis of the value has the length of the target's or the length 1;
  anything else raises \<open>ValueError\<close>.
\<close>

definition broadcastable :: "real list list \<Rightarrow> nat \<Rightarrow> nat \<Rightarrow> bool" where
  "broadcastable V n m =
     ((length V = n \<or> length V = 1) \<and> list_all (\<lambda>row. length row = m \<or> length row = 1) V)"

definition broadcast_to :: "real list list \<Rightarrow> nat \<Rightarrow> nat \<Rightarrow> real list list" where
  "broadcast_to V n m =
     (let rows = map (\<lambda>row. if length row = m then row else replicate m (hd row)) V
      in if length rows = n then rows else replicate n (hd rows))"

text \<open>\<open>tt[idx,:] = V\<close>, where \<open>tt\<close> has \<open>m\<close> columns: row \<open>k\<close> of the value goes to row \<open>idx[k]\<close>.\<close>

definition set_rows ::
  "real list list \<Rightarrow> nat \<Rightarrow> nat list \<Rightarrow> real list list \<Rightarrow> error + real list list" where
  "set_rows tt m idx V =
     (if broadcastable V (length idx) m
      then Inr (fold (\<lambda>(i, row) t. t[i := row]) (zip idx (broadcast_to V (length idx) m)) tt)
      else Inl ValueError)"

text \<open>\<open>result[:,idx] = V\<close>: column \<open>l\<close> of the value goes to column \<open>idx[l]\<close>.\<close>

definition set_cols ::
  "real list list \<Rightarrow> nat list \<Rightarrow> real list list \<Rightarrow> error + real list list" where
  "set_cols result idx V =
     (if broadcastable V (length result) (length idx)
      then Inr (map2 (\<lambda>r v. fold (\<lambda>(j, x) r. r[j := x]) (zip idx v) r) result
                  (broadcast_to V (length result) (length idx)))
      else Inl ValueError)"

text \<open>What \<open>opt_depth\<close> returns: a 0-D, 1-D or 2-D array.\<close>

datatype ndarray = A0 real | A1 "real list" | A2 "real list list"

fun ndim :: "ndarray \<Rightarrow> nat" where
  "ndim (A0 x) = 0"
| "ndim (A1 xs) = 1"
| "ndim (A2 M) = 2"

text \<open>\<open>np.squeeze\<close> of a 2-D array of shape \<open>(n, m)\<close>: every axis of length 1 is removed.\<close>

definition squeeze :: "nat \<Rightarrow> nat \<Rightarrow> real list list \<Rightarrow> ndarray" where
  "squeeze n m M =
     (if n = 1 \<and> m = 1 then A0 (M ! 0 ! 0)
      else if n = 1 then A1 (M ! 0)
      else if m = 1 then A1 (map (\<lambda>row. row ! 0) M)
      else A2 M)"

subsection \<open>The forward evaluator\<close>

text \<open>
  \<open>OptDepth.opt_depth\<close>, lines 259 to 304. The result carries the warnings issued on
  the way: \<open>warnings.warn\<close> does not interrupt the call. \<open>self._z[0]\<close> raises
  \<open>IndexError\<close> on an empty redshift grid.
\<close>

definition opt_depth ::
  "(spline \<Rightarrow> real \<Rightarrow> real \<Rightarrow> real) \<Rightarrow> optdepth \<Rightarrow> arg \<Rightarrow> arg
     \<Rightarrow> error + (ndarray \<times> warning list)" where
  "opt_depth ev self z ETeV =
     (let ETeV = as_array ETeV;
          z = as_array z
      in case self_z self of
           [] \<Rightarrow> Inl IndexError
         | z0 # _ \<Rightarrow>
             let warned = (if list_ex (\<lambda>x. x < z0) z then [RuntimeWarning] else []);
                 result = zeros (length z) (length ETeV);
                 tt = zeros (length z) (length ETeV);
                 args_z = argsort z;
                 args_E = argsort ETeV
             in case spline_call ev (self_tauSpline self)
                       (map (\<lambda>E. log10 (E * 1000)) (sort ETeV)) (sort z) of
                  Inl e \<Rightarrow> Inl e
                | Inr S \<Rightarrow>
                    (case set_rows tt (length ETeV) args_z (transpose_m (length z) S) of
                       Inl e \<Rightarrow> Inl e
                     | Inr tt \<Rightarrow>
                         (case set_cols result args_E tt of
                            Inl e \<Rightarrow> Inl e
                          | Inr result \<Rightarrow>
                              Inr (squeeze (length z) (length ETeV) result, warned))))"

subsection \<open>The evaluation methods on a store of objects\<close>

text \<open>
  To say what a method leaves unchanged, the same methods are written over a store of
  objects: an array, a surface or an instance is a cell of the store, an argument that is
  an array is the address of its cell, and the instance holds the addresses of its three
  grids and of its surface. numpy functions that return a new array (\<open>np.array\<close>,
  \<open>np.zeros\<close>, \<open>np.sort\<close>, \<open>np.argsort\<close>, \<open>np.log10\<close>, \<open>np.exp\<close>, \<open>np.linspace\<close>,
  arithmetic, the call of a surface) allocate a cell; an indexed assignment overwrites
  the cell of its target. A cell that holds an object of another kind than the method
  expects is outside the model and gives \<open>TypeError\<close>.
\<close>

type_synonym addr = nat

datatype obj =
    Floats "real list"
  | Floats2 "real list list"
  | Ints "nat list"
  | Ints2 "nat list list"
  | Surface spline
  | USplineObj "real list" "real list"
  | Instance addr addr addr addr

type_synonym heap = "obj list"

definition alloc :: "heap \<Rightarrow> obj \<Rightarrow> heap \<times> addr" where
  "alloc h v = (h @ [v], length h)"

definition lookup :: "heap \<Rightarrow> addr \<Rightarrow> obj option" where
  "lookup h a = (if a < length h then Some (h ! a) else None)"

datatype pyarg = PyFloat real | PyList "real list" | NdArray addr

fun as_array_h :: "heap \<Rightarrow> pyarg \<Rightarrow> heap \<times> addr" where
  "as_array_h h (PyFloat x) = alloc h (Floats [x])"
| "as_array_h h (PyList xs) = alloc h (Floats xs)"
| "as_array_h h (NdArray a) = (h, a)"

definition read_self :: "heap \<Rightarrow> addr \<Rightarrow> (real list \<times> real list \<times> spline) option" where
  "read_self h self =
     (case lookup h self of
        Some (Instance az ae atau asp) \<Rightarrow>
          (case (lookup h az, lookup h ae, lookup h asp) of
             (Some (Floats z), Some (Floats logE), Some (Surface s)) \<Rightarrow> Some (z, logE, s)
           | _ \<Rightarrow> None)
      | _ \<Rightarrow> None)"

text \<open>
  \<open>result[:,idx] = V\<close> where \<open>idx\<close> is a 2-D index array of shape \<open>(r, c)\<close>: the target
  \<open>result[:,idx]\<close> has the shape \<open>(n, r, c)\<close>, so the 2-D value is broadcast to
  \<open>(r, c)\<close>, and its element \<open>(a, b)\<close> goes to column \<open>idx[a][b]\<close> of every row.
\<close>

definition set_cols_2d ::
  "real list list \<Rightarrow> nat list list \<Rightarrow> nat \<Rightarrow> real list list \<Rightarrow> error + real list list" where
  "set_cols_2d result idx c V =
     (if broadcastable V (length idx) c
      then Inr (map (\<lambda>row. fold (\<lambda>(a, b) r. r[idx ! a ! b := broadcast_to V (length idx) c ! a ! b])
                              (List.product [0..<length idx] [0..<c]) row) result)
      else Inl ValueError)"

text \<open>
  \<open>OptDepth.opt_depth\<close>, lines 259 to 304, on the store. Lines 294 to 304 are
  \<open>opt_depth_body\<close>; the energies are a 1-D array (\<open>Inl\<close>) or a 2-D array (\<open>Inr\<close>),
  which is what \<open>opt_depth_Ebin\<close> passes. For a 2-D array \<open>ETeV.shape[0]\<close> is the number
  of rows, \<open>np.sort\<close> and \<open>np.argsort\<close> work along the last axis, and the surface is
  taken to accept the values in row-major order (a surface that rejects a 2-D array
  raises at that point instead).
\<close>

definition opt_depth_body ::
  "(spline \<Rightarrow> real \<Rightarrow> real \<Rightarrow> real) \<Rightarrow> heap \<Rightarrow> spline \<Rightarrow> real \<Rightarrow> real list
     \<Rightarrow> real list + real list list \<Rightarrow> (error + (ndarray \<times> warning list)) \<times> heap" where
  "opt_depth_body ev h s z0 z ETeV =
     (let warned = (if list_ex (\<lambda>x. x < z0) z then [RuntimeWarning] else []);
          shape0 = (case ETeV of Inl es \<Rightarrow> length es | Inr rows \<Rightarrow> length rows);
          (h, result) = alloc h (Floats2 (zeros (length z) shape0));
          (h, tt) = alloc h (Floats2 (zeros (length z) shape0));
          (h, args_z) = alloc h (Ints (argsort z));
          (h, args_E) = alloc h (case ETeV of Inl es \<Rightarrow> Ints (argsort es)
                                  | Inr rows \<Rightarrow> Ints2 (map argsort rows));
          (h, sorted_E) = alloc h (case ETeV of Inl es \<Rightarrow> Floats (sort es)
                                    | Inr rows \<Rightarrow> Floats2 (map sort rows));
          x = map (\<lambda>E. log10 (E * 1000))
                (case ETeV of Inl es \<Rightarrow> sort es | Inr rows \<Rightarrow> concat (map sort rows));
          (h, xa) = alloc h (Floats x);
          (h, sorted_z) = alloc h (Floats (sort z))
      in case spline_call ev s x (sort z) of
           Inl e \<Rightarrow> (Inl e, h)
         | Inr S \<Rightarrow>
             let (h, Sa) = alloc h (Floats2 S)
             in case set_rows (zeros (length z) shape0) shape0 (argsort z)
                       (transpose_m (length z) S) of
                  Inl e \<Rightarrow> (Inl e, h)
                | Inr tt' \<Rightarrow>
                    let h = h[tt := Floats2 tt']
                    in case (case ETeV of
                               Inl es \<Rightarrow> set_cols (zeros (length z) shape0) (argsort es) tt'
                             | Inr rows \<Rightarrow>
                                 set_cols_2d (zeros (length z) shape0) (map argsort rows)
                                   (case rows of [] \<Rightarrow> 0 | row # _ \<Rightarrow> length row) tt') of
                         Inl e \<Rightarrow> (Inl e, h)
                       | Inr result' \<Rightarrow>
                           (Inr (squeeze (length z) shape0 result', warned),
                            h[result := Floats2 result']))"

definition opt_depth_h ::
  "(spline \<Rightarrow> real \<Rightarrow> real \<Rightarrow> real) \<Rightarrow> heap \<Rightarrow> addr \<Rightarrow> pyarg \<Rightarrow> pyarg
     \<Rightarrow> (error + (ndarray \<times> warning list)) \<times> heap" where
  "opt_depth_h ev h self z ETeV =
     (let (h, ETeV) = as_array_h h ETeV;
          (h, z) = as_array_h h z
      in case read_self h self of
           None \<Rightarrow> (Inl TypeError, h)
         | Some (grid, logE, s) \<Rightarrow>
             (case lookup h z of
                Some (Floats zs) \<Rightarrow>
                  (case grid of
                     [] \<Rightarrow> (Inl IndexError, h)
                   | z0 # _ \<Rightarrow>
                       (case lookup h ETeV of
                          Some (Floats es) \<Rightarrow> opt_depth_body ev h s z0 zs (Inl es)
                        | Some (Floats2 rows) \<Rightarrow> opt_depth_body ev h s z0 zs (Inr rows)
                        | _ \<Rightarrow> (Inl TypeError, h)))
              | _ \<Rightarrow> (Inl TypeError, h)))"

text \<open>
  \<open>OptDepth.opt_depth_inverse\<close>, lines 306 to 323. \<open>USpline\<close> is scipy's
  \<open>UnivariateSpline\<close>, which is not part of the source; the value at \<open>t\<close> of the spline
  fitted to the abscissae \<open>xs\<close> and the ordinates \<open>ys\<close> is the parameter \<open>us xs ys t\<close>.
\<close>

definition opt_depth_inverse_h ::
  "(spline \<Rightarrow> real \<Rightarrow> real \<Rightarrow> real) \<Rightarrow> (real list \<Rightarrow> real list \<Rightarrow> real \<Rightarrow> real)
     \<Rightarrow> heap \<Rightarrow> addr \<Rightarrow> real \<Rightarrow> real \<Rightarrow> (error + real) \<times> heap" where
  "opt_depth_inverse_h ev us h self z tau =
     (case read_self h self of
        None \<Rightarrow> (Inl TypeError, h)
      | Some (grid, logE, s) \<Rightarrow>
          (case spline_call ev s logE [z] of
             Inl e \<Rightarrow> (Inl e, h)
           | Inr S \<Rightarrow>
               let (h, Sa) = alloc h (Floats2 S);
                   col = map (\<lambda>row. row ! 0) S;
                   (h, Enew) = alloc h (USplineObj col logE)
               in (Inr (10 powr us col logE tau), h)))"

text \<open>
  The loop of \<open>OptDepth.opt_depth_Ebin\<close>, lines 355 to 361. Line 361 passes
  \<open>np.exp(logE_array)\<close>, the 2-D array of all the grids appended so far, to
  \<open>opt_depth\<close>. The statement after the loop (lines 363 to 367) runs only when the loop
  has completed.
\<close>

definition linspace :: "real \<Rightarrow> real \<Rightarrow> nat \<Rightarrow> real list" where
  "linspace a b n =
     (if n = 1 then [a] else map (\<lambda>k. a + real k * ((b - a) / real (n - 1))) [0..<n])"

fun opt_depth_Ebin_loop_h ::
  "(spline \<Rightarrow> real \<Rightarrow> real \<Rightarrow> real) \<Rightarrow> heap \<Rightarrow> addr \<Rightarrow> real \<Rightarrow> real list \<Rightarrow> nat
     \<Rightarrow> real list list \<Rightarrow> ndarray list \<Rightarrow> warning list
     \<Rightarrow> (error + (real list list \<times> ndarray list \<times> warning list)) \<times> heap" where
  "opt_depth_Ebin_loop_h ev h self z (E # E' # Ebin) Esteps logE_array t_array ws =
     (let (h, grid) = alloc h (Floats (linspace (ln E) (ln E') Esteps));
          logE_array = logE_array @ [linspace (ln E) (ln E') Esteps];
          (h, arg) = alloc h (Floats2 (map (map exp) logE_array))
      in case opt_depth_h ev h self (PyFloat z) (NdArray arg) of
           (Inl e, h) \<Rightarrow> (Inl e, h)
         | (Inr (t, w), h) \<Rightarrow>
             opt_depth_Ebin_loop_h ev h self z (E' # Ebin) Esteps logE_array
               (t_array @ [t]) (ws @ w))"
| "opt_depth_Ebin_loop_h ev h self z Ebin Esteps logE_array t_array ws =
     (Inr (logE_array, t_array, ws), h)"

text \<open>An argument of the first form of \<open>opt_depth\<close> as a Python value.\<close>

fun to_py :: "arg \<Rightarrow> pyarg" where
  "to_py (Scalar x) = PyFloat x"
| "to_py (Array xs) = PyList xs"

text \<open>The store \<open>h'\<close> holds every cell of \<open>h\<close> with the object it held in \<open>h\<close>.\<close>

definition extends :: "heap \<Rightarrow> heap \<Rightarrow> bool" where
  "extends h h' = (take (length h) h' = h)"

subsection \<open>Consistency of the cached surface\<close>

text \<open>
  The cached surface is the one that \<open>RBSpline\<close> builds from the three grids stored
  now, with the degrees \<open>kx\<close> and \<open>ky\<close>.
\<close>

definition surface_consistent :: "optdepth \<Rightarrow> nat \<Rightarrow> nat \<Rightarrow> bool" where
  "surface_consistent self kx ky =
     (RBSpline (self_logEGeV self) (self_z self) (self_tau self) kx ky
        = Inr (self_tauSpline self))"

subsection \<open>The scenario of the spec\<close>

definition scenario_z :: "real list" where
  "scenario_z = [0.1, 0.5, 1]"

definition scenario_EGeV :: "real list" where
  "scenario_EGeV = [10, 100, 1000]"

definition scenario_tau :: "real list list" where
  "scenario_tau = [[0, 0, 0], [0.1, 0.3, 0.5], [1, 2, 3]]"

definition scenario_store :: optdepth where
  "scenario_store =
     \<lparr>self_z = scenario_z, self_logEGeV = [1, 2, 3], self_tau = scenario_tau,
      self_tauSpline = \<lparr>sp_x = [1, 2, 3], sp_y = scenario_z, sp_z = scenario_tau,
                        sp_kx = 2, sp_ky = 2\<rparr>\<rparr>"

text \<open>The scenario store as objects: the instance is the cell 4.\<close>

definition scenario_heap :: heap where
  "scenario_heap =
     [Floats scenario_z, Floats [1, 2, 3], Floats2 scenario_tau,
      Surface (self_tauSpline scenario_store), Instance 0 1 2 3]"

subsection \<open>Notions used to state the properties\<close>

text \<open>
  The matrix that the forward evaluator is meant to compute: row \<open>i\<close>, column \<open>j\<close> is
  the surface at the redshift \<open>zs[i]\<close> and at log10 of the energy \<open>es[j]\<close> in GeV.
\<close>

definition tau_matrix ::
  "(spline \<Rightarrow> real \<Rightarrow> real \<Rightarrow> real) \<Rightarrow> optdepth \<Rightarrow> real list \<Rightarrow> real list \<Rightarrow> real list list" where
  "tau_matrix ev self zs es =
     map (\<lambda>zi. map (\<lambda>E. ev (self_tauSpline self) (log10 (E * 1000)) zi) es) zs"

text \<open>
  Permuting an array by a list of indices (numpy's \<open>xs[p]\<close>), and undoing it:
  element \<open>k\<close> of the permuted array goes back to position \<open>p[k]\<close>.
\<close>

definition permute :: "nat list \<Rightarrow> 'a list \<Rightarrow> 'a list" where
  "permute p xs = map (\<lambda>i. xs ! i) p"

definition unpermute :: "nat list \<Rightarrow> 'a list \<Rightarrow> 'a list" where
  "unpermute p xs = fold (\<lambda>(i, v) t. t[i := v]) (zip p xs) xs"

text \<open>
  Undoing \<open>p\<close> along the redshift axis and \<open>q\<close> along the energy axis of a result. A
  result of one dimension has lost the redshift axis when there is one redshift, and
  the energy axis otherwise.
\<close>

fun unpermute_result :: "nat list \<Rightarrow> nat list \<Rightarrow> ndarray \<Rightarrow> ndarray" where
  "unpermute_result p q (A0 x) = A0 x"
| "unpermute_result p q (A1 v) =
     (if length p = 1 then A1 (unpermute q v) else A1 (unpermute p v))"
| "unpermute_result p q (A2 M) = A2 (unpermute p (map (unpermute q) M))"

text \<open>
  Scattering back, in the words of the spec: the surface is called on the sorted
  arrays, and the value for the caller's redshift \<open>i\<close> and energy \<open>j\<close> is found at
  the positions that \<open>i\<close> and \<open>j\<close> have in the two lists of sorting indices, that is
  through the inverse of each sorting permutation. \<open>G\<close> has one row for each energy.
\<close>

fun position :: "nat list \<Rightarrow> nat \<Rightarrow> nat" where
  "position [] i = 0"
| "position (k # ks) i = (if k = i then 0 else Suc (position ks i))"

definition scatter_back :: "nat list \<Rightarrow> nat list \<Rightarrow> real list list \<Rightarrow> real list list" where
  "scatter_back az aE G =
     map (\<lambda>i. map (\<lambda>j. G ! position aE j ! position az i) [0..<length aE]) [0..<length az]"

text \<open>
  The contract of an interpolating surface (smoothing 0): fitted with degrees at least 1
  to samples on strictly increasing coordinates, it takes the value of each sample at
  the coordinates of the sample.
\<close>

definition interpolates :: "(spline \<Rightarrow> real \<Rightarrow> real \<Rightarrow> real) \<Rightarrow> bool" where
  "interpolates ev =
     (\<forall>s i j. 1 \<le> sp_kx s \<and> 1 \<le> sp_ky s \<and>
              sorted_wrt (<) (sp_x s) \<and> sorted_wrt (<) (sp_y s) \<and>
              i < length (sp_x s) \<and> j < length (sp_y s)
              \<longrightarrow> ev s (sp_x s ! i) (sp_y s ! j) = sp_z s ! i ! j)"

text \<open>
  A surface to run the operations on: it looks the coordinates up among the samples and
  is 0 away from them.
\<close>

fun index_of :: "real \<Rightarrow> real list \<Rightarrow> nat option" where
  "index_of x [] = None"
| "index_of x (y # ys) =
     (if x = y then Some 0 else map_option Suc (index_of x ys))"

definition ev_samples :: "spline \<Rightarrow> real \<Rightarrow> real \<Rightarrow> real" where
  "ev_samples s x y =
     (case index_of x (sp_x s) of
        None \<Rightarrow> 0
      | Some i \<Rightarrow> (case index_of y (sp_y s) of
                     None \<Rightarrow> 0
                   | Some j \<Rightarrow> sp_z s ! i ! j))"

section \<open>Basic facts\<close>

lemma log10_pow10: "log10 (10 ^ n) = real n"
  by (simp add: log10_def)

lemma log10_scenario: "map log10 scenario_EGeV = [1, 2, 3]"
proof -
  have "log10 10 = 1" using log10_pow10 [of 1] by simp
  moreover have "log10 100 = 2" using log10_pow10 [of 2] by simp
  moreover have "log10 1000 = 3" using log10_pow10 [of 3] by simp
  ultimately show ?thesis by (simp add: scenario_EGeV_def)
qed

lemma scenario_store_init:
  "OptDepth_init scenario_z scenario_EGeV scenario_tau 2 2 = Inr scenario_store"
proof -
  have "shape_ok scenario_tau (length [1, 2, 3 :: real]) (length scenario_z)"
    by (simp add: shape_ok_def scenario_tau_def scenario_z_def)
  then show ?thesis
    by (simp add: OptDepth_init_def RBSpline_def log10_scenario scenario_store_def Let_def)
qed

lemma ln10_gt1: "1 < ln (10::real)"
proof -
  have "exp 1 < (10::real)" using exp_le by linarith
  then have "exp 1 < exp (ln (10::real))" by simp
  then show ?thesis by (simp only: exp_less_cancel_iff)
qed

lemma log10_less_self:
  assumes "0 < x"
  shows "log10 x < x"
proof (cases "1 \<le> x")
  case True
  then have "0 \<le> ln x" by simp
  then have "ln x / ln 10 \<le> ln x / 1"
    using ln10_gt1 by (intro divide_left_mono) simp_all
  also have "\<dots> < x" using assms by simp
  finally show ?thesis by (simp add: log10_def log_def)
next
  case False
  then have "ln x < 0" using assms by simp
  then have "ln x / ln 10 < 0" using ln10_gt1 by (simp add: divide_neg_pos)
  then show ?thesis using assms by (simp add: log10_def log_def)
qed

lemma map_log10_neq: "E \<noteq> [] \<Longrightarrow> list_all (\<lambda>e. 0 < e) E \<Longrightarrow> map log10 E \<noteq> E"
  by (cases E) (auto dest: log10_less_self)

lemma scenario_shape: "shape_ok scenario_tau (Suc (Suc (Suc 0))) (length scenario_z)"
  by (simp add: shape_ok_def scenario_tau_def scenario_z_def)

section \<open>Sorting, scattering and the forward evaluator\<close>

lemma map_fst_sort_key: "map fst (sort_key fst ps) = sort (map fst ps)"
proof -
  have "mset (map fst (sort_key fst ps)) = mset (map fst ps)"
    by simp
  moreover have "sorted (map fst (sort_key fst ps))"
    by (rule sorted_sort_key)
  ultimately show ?thesis
    by (rule properties_for_sort [symmetric])
qed

lemma length_argsort: "length (argsort xs) = length xs"
  by (simp add: argsort_def)

lemma set_argsort: "set (argsort xs) = {..<length xs}"
proof -
  have "set (argsort xs) = set (map snd (zip xs [0..<length xs]))"
    unfolding argsort_def set_map set_sort ..
  also have "map snd (zip xs [0..<length xs]) = [0..<length xs]"
    by simp
  finally show ?thesis by (simp add: lessThan_atLeast0)
qed

lemma argsort_nth: "map ((!) xs) (argsort xs) = sort xs"
proof -
  let ?ps = "zip xs [0..<length xs]"
  have "\<forall>p \<in> set (sort_key fst ?ps). xs ! snd p = fst p"
    by (auto simp: set_zip)
  then have "map (\<lambda>p. xs ! snd p) (sort_key fst ?ps) = map fst (sort_key fst ?ps)"
    by (intro map_cong) auto
  then show ?thesis
    by (simp add: argsort_def map_fst_sort_key comp_def)
qed

lemma fold_update_length:
  "length (fold (\<lambda>(i, v) t. t[i := v]) ps t) = length t"
  by (induction ps arbitrary: t) auto

lemma fold_update_nth:
  "j < length t \<Longrightarrow>
   fold (\<lambda>(i, v) t. t[i := v]) (zip idx (map g idx)) t ! j =
     (if j \<in> set idx then g j else t ! j)"
  by (induction idx arbitrary: t) (auto simp: nth_list_update)

lemma scatter_perm:
  assumes "set idx = {..<length t}"
  shows "fold (\<lambda>(i, v) t. t[i := v]) (zip idx (map g idx)) t = map g [0..<length t]"
  by (rule nth_equalityI) (simp_all add: fold_update_length fold_update_nth assms)

lemma scatter_argsort:
  assumes "length t = length xs"
  shows "fold (\<lambda>(i, v) t. t[i := v]) (zip (argsort xs) (map h (sort xs))) t = map h xs"
proof -
  have "map h (sort xs) = map (\<lambda>i. h (xs ! i)) (argsort xs)"
    by (simp add: argsort_nth [symmetric] comp_def)
  then have "fold (\<lambda>(i, v) t. t[i := v]) (zip (argsort xs) (map h (sort xs))) t
      = map (\<lambda>i. h (xs ! i)) [0..<length t]"
    using scatter_perm [of "argsort xs" t "\<lambda>i. h (xs ! i)"] assms
    by (simp add: set_argsort)
  also have "\<dots> = map h xs"
    using assms by (intro nth_equalityI) simp_all
  finally show ?thesis .
qed


lemma sorted_map_log10:
  assumes "list_all (\<lambda>e. 0 < e) es"
  shows "sorted (map (\<lambda>E. log10 (E * 1000)) (sort es))"
proof -
  have pos: "\<forall>e \<in> set (sort es). 0 < e"
    using assms by (simp add: list_all_iff)
  have "sorted_wrt (\<lambda>x y. log10 (x * 1000) \<le> log10 (y * 1000)) (sort es)"
  proof (rule sorted_wrt_mono_rel [of _ "(\<le>)"])
    show "sorted_wrt (\<le>) (sort es)" by simp
  next
    fix x y assume "x \<in> set (sort es)" "y \<in> set (sort es)" "x \<le> y"
    then show "log10 (x * 1000) \<le> log10 (y * 1000)"
      using pos by (simp add: log10_def)
  qed
  then show ?thesis by (simp add: sorted_wrt_map)
qed

lemma transpose_m_grid:
  "transpose_m (length ys) (map (\<lambda>x. map (f x) ys) xs) = map (\<lambda>y. map (\<lambda>x. f x y) xs) ys"
  by (rule nth_equalityI) (simp_all add: transpose_m_def comp_def)

lemma broadcast_to_id:
  "length V = n \<Longrightarrow> list_all (\<lambda>row. length row = m) V \<Longrightarrow>
   broadcastable V n m \<and> broadcast_to V n m = V"
  by (auto simp: broadcastable_def broadcast_to_def list_all_iff intro: map_idI)

lemma set_rows_argsort:
  assumes "length tt = length zs"
  shows "set_rows tt (length xs) (argsort zs) (map (\<lambda>y. map (g y) xs) (sort zs))
         = Inr (map (\<lambda>y. map (g y) xs) zs)"
proof -
  have "broadcastable (map (\<lambda>y. map (g y) xs) (sort zs)) (length (argsort zs)) (length xs) \<and>
        broadcast_to (map (\<lambda>y. map (g y) xs) (sort zs)) (length (argsort zs)) (length xs)
          = map (\<lambda>y. map (g y) xs) (sort zs)"
    by (rule broadcast_to_id) (simp_all add: length_argsort list_all_iff)
  then show ?thesis
    using scatter_argsort [OF assms, of "\<lambda>y. map (g y) xs"]
    by (simp add: set_rows_def)
qed

lemma set_cols_argsort:
  assumes "list_all (\<lambda>row. length row = length es) result" "length result = length zs"
  shows "set_cols result (argsort es) (map (\<lambda>y. map (h y) (sort es)) zs)
         = Inr (map (\<lambda>y. map (h y) es) zs)"
proof -
  let ?V = "map (\<lambda>y. map (h y) (sort es)) zs"
  have "broadcastable ?V (length result) (length (argsort es)) \<and>
        broadcast_to ?V (length result) (length (argsort es)) = ?V"
    using assms by (intro broadcast_to_id) (simp_all add: length_argsort list_all_iff)
  moreover have "map2 (\<lambda>r v. fold (\<lambda>(j, x) r. r[j := x]) (zip (argsort es) v) r) result ?V
      = map (\<lambda>y. map (h y) es) zs"
  proof (rule nth_equalityI)
    show "length (map2 (\<lambda>r v. fold (\<lambda>(j, x) r. r[j := x]) (zip (argsort es) v) r) result ?V)
        = length (map (\<lambda>y. map (h y) es) zs)"
      using assms by simp
  next
    fix i assume "i < length (map2 (\<lambda>r v. fold (\<lambda>(j, x) r. r[j := x]) (zip (argsort es) v) r) result ?V)"
    then have i: "i < length zs" "i < length result" using assms by simp_all
    then have "length (result ! i) = length es"
      using assms by (simp add: list_all_length)
    then show "map2 (\<lambda>r v. fold (\<lambda>(j, x) r. r[j := x]) (zip (argsort es) v) r) result ?V ! i
        = map (\<lambda>y. map (h y) es) zs ! i"
      using i scatter_argsort [of "result ! i" es "h (zs ! i)"] by simp
  qed
  ultimately show ?thesis by (simp add: set_cols_def)
qed

lemma opt_depth_eq_sorted:
  assumes grid: "self_z self = z0 # zr"
    and srt: "sorted (map (\<lambda>E. log10 (E * 1000)) (sort (as_array ETeV)))"
  shows "opt_depth ev self z ETeV =
    Inr (squeeze (length (as_array z)) (length (as_array ETeV))
           (tau_matrix ev self (as_array z) (as_array ETeV)),
         if list_ex (\<lambda>x. x < z0) (as_array z) then [RuntimeWarning] else [])"
proof -
  let ?es = "as_array ETeV" and ?zs = "as_array z"
  let ?xs = "map (\<lambda>E. log10 (E * 1000)) (sort ?es)"
  let ?f = "ev (self_tauSpline self)"
  have call: "spline_call ev (self_tauSpline self) ?xs (sort ?zs)
      = Inr (map (\<lambda>x. map (?f x) (sort ?zs)) ?xs)"
    using srt by (simp add: spline_call_def)
  have tr: "transpose_m (length ?zs) (map (\<lambda>x. map (?f x) (sort ?zs)) ?xs)
      = map (\<lambda>y. map (\<lambda>x. ?f x y) ?xs) (sort ?zs)"
    using transpose_m_grid [of "sort ?zs" ?f ?xs] by simp
  have rows: "set_rows (zeros (length ?zs) (length ?es)) (length ?es) (argsort ?zs)
        (map (\<lambda>y. map (\<lambda>x. ?f x y) ?xs) (sort ?zs))
      = Inr (map (\<lambda>y. map (\<lambda>x. ?f x y) ?xs) ?zs)"
    using set_rows_argsort [of "zeros (length ?zs) (length ?es)" ?zs ?xs "\<lambda>y x. ?f x y"]
    by (simp add: zeros_def)
  have cols: "set_cols (zeros (length ?zs) (length ?es)) (argsort ?es)
        (map (\<lambda>y. map (\<lambda>E. ?f (log10 (E * 1000)) y) (sort ?es)) ?zs)
      = Inr (map (\<lambda>y. map (\<lambda>E. ?f (log10 (E * 1000)) y) ?es) ?zs)"
    by (rule set_cols_argsort) (simp_all add: zeros_def list_all_iff)
  show ?thesis
    using call tr rows cols grid
    by (simp add: opt_depth_def Let_def tau_matrix_def comp_def)
qed

lemma opt_depth_unsorted:
  assumes grid: "self_z self = z0 # zr"
    and srt: "\<not> sorted (map (\<lambda>E. log10 (E * 1000)) (sort (as_array ETeV)))"
  shows "opt_depth ev self z ETeV = Inl ValueError"
  using grid srt by (simp add: opt_depth_def Let_def spline_call_def)

lemma opt_depth_no_grid:
  "self_z self = [] \<Longrightarrow> opt_depth ev self z ETeV = Inl IndexError"
  by (simp add: opt_depth_def Let_def)

lemma opt_depth_eq:
  assumes grid: "self_z self = z0 # zr"
    and pos: "list_all (\<lambda>e. 0 < e) (as_array ETeV)"
  shows "opt_depth ev self z ETeV =
    Inr (squeeze (length (as_array z)) (length (as_array ETeV))
           (tau_matrix ev self (as_array z) (as_array ETeV)),
         if list_ex (\<lambda>x. x < z0) (as_array z) then [RuntimeWarning] else [])"
  using grid sorted_map_log10 [OF pos] by (rule opt_depth_eq_sorted)

text \<open>
  The number of axes of the result depends on the lengths of the two arguments as
  arrays only: a scalar and an array of one element are the same after lines 281-288.
\<close>

lemma ndim_squeeze:
  "ndim (squeeze n m M) = (if n = 1 then 0 else 1) + (if m = 1 then 0 else 1)"
  by (simp add: squeeze_def)

lemma opt_depth_ndim:
  assumes grid: "self_z self = z0 # zr"
    and pos: "list_all (\<lambda>e. 0 < e) (as_array ETeV)"
  shows "\<exists>r w. opt_depth ev self z ETeV = Inr (r, w) \<and>
           ndim r = (if length (as_array z) = 1 then 0 else 1)
                  + (if length (as_array ETeV) = 1 then 0 else 1)"
  unfolding opt_depth_eq [OF grid pos] by (simp add: ndim_squeeze)

section \<open>Permutations of the arguments\<close>

lemma perm_indices:
  assumes "mset p = mset [0..<n]"
  shows "length p = n" "set p = {..<n}"
proof -
  show "length p = n" using assms by (metis length_upt mset_eq_length minus_nat.diff_0)
  show "set p = {..<n}" using assms by (metis atLeast_upt mset_eq_setD)
qed

lemma unpermute_permute:
  assumes "mset p = mset [0..<length xs]"
  shows "unpermute p (map g (permute p xs)) = map g xs"
proof -
  have "map g (permute p xs) = map (\<lambda>i. g (xs ! i)) p"
    by (simp add: permute_def comp_def)
  moreover have "length (map (\<lambda>i. g (xs ! i)) p) = length xs"
    using perm_indices [OF assms] by simp
  ultimately have "unpermute p (map g (permute p xs)) = map (\<lambda>i. g (xs ! i)) [0..<length xs]"
    using scatter_perm [of p "map (\<lambda>i. g (xs ! i)) p" "\<lambda>i. g (xs ! i)"]
      perm_indices [OF assms]
    by (simp add: unpermute_def)
  also have "\<dots> = map g xs"
    by (intro nth_equalityI) simp_all
  finally show ?thesis .
qed

lemma set_permute:
  assumes "mset p = mset [0..<length xs]"
  shows "set (permute p xs) = set xs"
proof -
  have "set (permute p xs) = (\<lambda>i. xs ! i) ` {..<length xs}"
    using perm_indices [OF assms] by (simp add: permute_def)
  also have "\<dots> = set xs"
    by (auto simp: set_conv_nth)
  finally show ?thesis .
qed

lemma length_permute:
  "mset p = mset [0..<length xs] \<Longrightarrow> length (permute p xs) = length xs"
  using perm_indices(1) by (simp add: permute_def)

lemma mset_permute:
  assumes "mset p = mset [0..<length xs]"
  shows "mset (permute p xs) = mset xs"
proof -
  have "mset (permute p xs) = image_mset (\<lambda>i. xs ! i) (mset p)"
    by (simp add: permute_def)
  also have "\<dots> = mset (map (\<lambda>i. xs ! i) [0..<length xs])"
    using assms by simp
  also have "map (\<lambda>i. xs ! i) [0..<length xs] = xs"
    by (rule map_nth)
  finally show ?thesis .
qed

lemma sort_permute:
  assumes "mset p = mset [0..<length xs]"
  shows "sort (permute p xs) = sort xs"
  using mset_permute [OF assms] by (intro properties_for_sort) simp_all

lemma permute_singleton:
  assumes "mset r = mset [0..<length xs]" and "length xs = 1"
  shows "permute r xs = xs"
proof -
  have "mset r = {#0#}"
    using assms by simp
  then have "r = [0]"
    by simp
  moreover obtain x where "xs = [x]"
    using assms(2) by (cases xs) auto
  ultimately show ?thesis
    by (simp add: permute_def)
qed

lemma unpermute_tau_matrix:
  assumes p: "mset p = mset [0..<length zs]" and q: "mset q = mset [0..<length es]"
  shows "unpermute_result p q
           (squeeze (length zs) (length es) (tau_matrix ev self (permute p zs) (permute q es)))
         = squeeze (length zs) (length es) (tau_matrix ev self zs es)"
proof -
  let ?h = "\<lambda>zi E. ev (self_tauSpline self) (log10 (E * 1000)) zi"
  have rows: "\<And>zi. unpermute q (map (?h zi) (permute q es)) = map (?h zi) es"
    by (rule unpermute_permute [OF q])
  have M: "unpermute p (map (unpermute q) (tau_matrix ev self (permute p zs) (permute q es)))
      = tau_matrix ev self zs es"
    using unpermute_permute [OF p, of "\<lambda>zi. map (?h zi) es"]
    by (simp add: tau_matrix_def rows comp_def)
  have lp: "length p = length zs" and lq: "length q = length es"
    using perm_indices(1) [OF p] perm_indices(1) [OF q] by simp_all
  consider (a) "length zs = 1" "length es = 1" | (b) "length zs = 1" "length es \<noteq> 1"
    | (c) "length zs \<noteq> 1" "length es = 1" | (d) "length zs \<noteq> 1" "length es \<noteq> 1"
    by blast
  then show ?thesis
  proof cases
    case a
    then show ?thesis
      using permute_singleton [OF p] permute_singleton [OF q] by (simp add: squeeze_def)
  next
    case b
    then obtain z0 where z0: "zs = [z0]" by (cases zs) auto
    have "permute p zs = zs" using permute_singleton [OF p] b by simp
    then show ?thesis
      using b lp rows [of z0] by (simp add: squeeze_def tau_matrix_def z0)
  next
    case c
    then obtain e0 where e0: "es = [e0]" by (cases es) auto
    have "permute q es = es" using permute_singleton [OF q] c by simp
    then show ?thesis
      using c lp unpermute_permute [OF p, of "\<lambda>zi. ?h zi e0"]
      by (simp add: squeeze_def tau_matrix_def e0 comp_def)
  next
    case d
    then show ?thesis
      using M by (simp add: squeeze_def)
  qed
qed


lemma log10_100: "log10 100 = 2"
  using log10_pow10 [of 2] by simp

lemma log10_1000: "log10 1000 = 3"
  using log10_pow10 [of 3] by simp

lemma index_of_nth:
  "sorted_wrt (<) xs \<Longrightarrow> i < length xs \<Longrightarrow> index_of (xs ! i) xs = Some i"
proof (induction xs arbitrary: i)
  case Nil
  then show ?case by simp
next
  case (Cons y ys)
  show ?case
  proof (cases i)
    case 0
    then show ?thesis by simp
  next
    case (Suc k)
    then have "ys ! k \<in> set ys" using Cons.prems by simp
    then have "y < ys ! k" using Cons.prems(1) by simp
    then have ne: "ys ! k \<noteq> y" by simp
    have "index_of (ys ! k) ys = Some k"
      using Cons.IH [of k] Cons.prems Suc by simp
    then show ?thesis using Suc ne by simp
  qed
qed

lemma interpolates_ev_samples: "interpolates ev_samples"
  by (simp add: interpolates_def ev_samples_def index_of_nth)

lemma sorted_wrt_map_log10:
  assumes "sorted_wrt (<) E" "list_all (\<lambda>e. 0 < e) E"
  shows "sorted_wrt (<) (map log10 E)"
proof -
  have "sorted_wrt (\<lambda>x y. log10 x < log10 y) E"
  proof (rule sorted_wrt_mono_rel [OF _ assms(1)])
    fix x y assume "x \<in> set E" "y \<in> set E" "x < y"
    then show "log10 x < log10 y"
      using assms(2) by (simp add: log10_def list_all_iff)
  qed
  then show ?thesis by (simp add: sorted_wrt_map)
qed

section \<open>The store of objects under the evaluation methods\<close>

lemma extends_length: "extends h h' \<Longrightarrow> length h \<le> length h'"
proof -
  assume "extends h h'"
  then have "length (take (length h) h') = length h"
    by (simp add: extends_def)
  then show ?thesis by simp
qed

lemma extends_refl: "extends h h"
  by (simp add: extends_def)

lemma extends_alloc:
  assumes "extends h h1"
  shows "extends h (fst (alloc h1 v))" and "length h \<le> snd (alloc h1 v)"
  using assms extends_length [OF assms] by (simp_all add: extends_def alloc_def)

lemma extends_update:
  assumes "extends h h1" and "length h \<le> a"
  shows "extends h (h1[a := v])"
  using assms by (simp add: extends_def take_update_cancel)

lemma extends_body:
  assumes "extends h0 h"
  shows "extends h0 (snd (opt_depth_body ev h s z0 z E))"
proof -
  have n: "length h0 \<le> length h"
    using assms by (rule extends_length)
  have t: "take (length h0) h = h0"
    using assms by (simp add: extends_def)
  show ?thesis
    using n t
    by (simp add: opt_depth_body_def Let_def alloc_def extends_def split: sum.splits)
qed

lemma extends_as_array:
  assumes "extends h0 h"
  shows "extends h0 (fst (as_array_h h a))"
  using assms extends_alloc(1) [OF assms] by (cases a) simp_all

lemma extends_opt_depth:
  assumes "extends h0 h"
  shows "extends h0 (snd (opt_depth_h ev h self z ETeV))"
proof -
  obtain h1 E where E: "as_array_h h ETeV = (h1, E)"
    by (cases "as_array_h h ETeV")
  obtain h2 zz where z: "as_array_h h1 z = (h2, zz)"
    by (cases "as_array_h h1 z")
  have "extends h0 h1"
    using extends_as_array [OF assms, of ETeV] E by simp
  then have e2: "extends h0 h2"
    using extends_as_array [of h0 h1 z] z by simp
  show ?thesis
    using e2 extends_body [OF e2]
    by (simp add: opt_depth_h_def E z split: option.splits obj.splits list.splits prod.splits)
qed

lemma extends_inverse:
  assumes "extends h0 h"
  shows "extends h0 (snd (opt_depth_inverse_h ev us h self z tau))"
proof -
  have n: "length h0 \<le> length h"
    using assms by (rule extends_length)
  have t: "take (length h0) h = h0"
    using assms by (simp add: extends_def)
  show ?thesis
    using n t
    by (simp add: opt_depth_inverse_h_def Let_def alloc_def extends_def
        split: option.splits sum.splits prod.splits)
qed

lemma extends_Ebin_loop:
  "extends h0 h \<Longrightarrow>
   extends h0 (snd (opt_depth_Ebin_loop_h ev h self z Ebin Esteps logE_array t_array ws))"
proof (induction ev h self z Ebin Esteps logE_array t_array ws
    rule: opt_depth_Ebin_loop_h.induct)
  case (1 ev h self z E E' Ebin Esteps logE_array t_array ws)
  let ?g = "linspace (ln E) (ln E') Esteps"
  let ?h1 = "h @ [Floats ?g]"
  let ?h2 = "?h1 @ [Floats2 (map (map exp) (logE_array @ [?g]))]"
  have e2: "extends h0 ?h2"
    using extends_alloc(1) [OF extends_alloc(1) [OF "1.prems", of "Floats ?g"],
        of "Floats2 (map (map exp) (logE_array @ [?g]))"]
    by (simp add: alloc_def)
  obtain r h3 where call: "opt_depth_h ev ?h2 self (PyFloat z) (NdArray (length ?h1)) = (r, h3)"
    by (cases "opt_depth_h ev ?h2 self (PyFloat z) (NdArray (length ?h1))")
  have e3: "extends h0 h3"
    using extends_opt_depth [OF e2, of ev self "PyFloat z" "NdArray (length ?h1)"] call by simp
  show ?case
  proof (cases r)
    case (Inl e)
    then show ?thesis
      using call e3 by (simp add: Let_def alloc_def)
  next
    case (Inr tw)
    obtain t w where tw: "tw = (t, w)" by (cases tw)
    have "extends h0 (snd (opt_depth_Ebin_loop_h ev h3 self z (E' # Ebin) Esteps
        (logE_array @ [?g]) (t_array @ [t]) (ws @ w)))"
      by (rule "1.IH" [of "alloc h (Floats ?g)" ?h1 "length h" "logE_array @ [?g]"
            "alloc ?h1 (Floats2 (map (map exp) (logE_array @ [?g])))" ?h2 "length ?h1"
            r h3 tw t w])
        (use call Inr tw e3 in \<open>simp_all add: alloc_def\<close>)
    then show ?thesis
      using call Inr tw by (simp add: Let_def alloc_def)
  qed
qed simp_all

lemma length_linspace: "length (linspace a b n) = n"
  by (simp add: linspace_def)

lemma body_2d_raises:
  assumes "2 \<le> length row"
  shows "fst (opt_depth_body ev h s z0 [z] (Inr [row])) = Inl ValueError"
proof -
  let ?x = "map (\<lambda>E. log10 (E * 1000)) (sort row)"
  show ?thesis
  proof (cases "spline_call ev s ?x [z]")
    case (Inl e)
    then have "e = ValueError"
      by (simp add: spline_call_def split: if_splits)
    then show ?thesis
      using Inl by (simp add: opt_depth_body_def Let_def alloc_def)
  next
    case (Inr S)
    then have S: "S = map (\<lambda>x. [ev s x z]) ?x"
      by (simp add: spline_call_def split: if_splits)
    have "transpose_m (length [z]) S = [map (\<lambda>r. r ! 0) S]"
      by (simp add: transpose_m_def)
    moreover have "length (map (\<lambda>r. r ! 0) S) = length row"
      by (simp add: S)
    ultimately have "set_rows (zeros (length [z]) 1) 1 (argsort [z]) (transpose_m (length [z]) S)
        = Inl ValueError"
      using assms by (simp add: set_rows_def broadcastable_def)
    then show ?thesis
      using Inr by (simp add: opt_depth_body_def Let_def alloc_def)
  qed
qed

lemma lookup_extends:
  "extends h h' \<Longrightarrow> lookup h a = Some v \<Longrightarrow> lookup h' a = Some v"
proof -
  assume e: "extends h h'" and l: "lookup h a = Some v"
  then have a: "a < length h" and v: "h ! a = v"
    by (auto simp: lookup_def split: if_splits)
  have "h' ! a = take (length h) h' ! a"
    using a by simp
  then have "h' ! a = v"
    using e v by (simp add: extends_def)
  then show ?thesis
    using a extends_length [OF e] by (simp add: lookup_def)
qed

lemma read_self_extends:
  assumes "extends h h'" and "read_self h self = Some v"
  shows "read_self h' self = Some v"
proof -
  obtain az ae atau asp zg logE s where
    i: "lookup h self = Some (Instance az ae atau asp)" and
    z: "lookup h az = Some (Floats zg)" and
    e: "lookup h ae = Some (Floats logE)" and
    sp: "lookup h asp = Some (Surface s)" and
    v: "v = (zg, logE, s)"
    using assms(2)
    by (auto simp: read_self_def split: option.splits obj.splits)
  show ?thesis
    using lookup_extends [OF assms(1) i] lookup_extends [OF assms(1) z]
      lookup_extends [OF assms(1) e] lookup_extends [OF assms(1) sp] v
    by (simp add: read_self_def)
qed

text \<open>On scalars and lists, \<open>opt_depth\<close> over the store returns what \<open>opt_depth\<close> returns.\<close>

lemma as_array_h_to_py: "as_array_h h (to_py a) = (h @ [Floats (as_array a)], length h)"
  by (cases a) (simp_all add: alloc_def)

lemma fst_opt_depth_body_1d:
  "fst (opt_depth_body ev h s z0 zs (Inl es)) =
     (case spline_call ev s (map (\<lambda>E. log10 (E * 1000)) (sort es)) (sort zs) of
        Inl e \<Rightarrow> Inl e
      | Inr S \<Rightarrow>
          (case set_rows (zeros (length zs) (length es)) (length es) (argsort zs)
                  (transpose_m (length zs) S) of
             Inl e \<Rightarrow> Inl e
           | Inr tt \<Rightarrow>
               (case set_cols (zeros (length zs) (length es)) (argsort es) tt of
                  Inl e \<Rightarrow> Inl e
                | Inr result \<Rightarrow>
                    Inr (squeeze (length zs) (length es) result,
                         if list_ex (\<lambda>x. x < z0) zs then [RuntimeWarning] else []))))"
  by (simp add: opt_depth_body_def Let_def alloc_def split: sum.splits)

lemma opt_depth_h_value:
  assumes rs: "read_self h self = Some (self_z st, logE, self_tauSpline st)"
  shows "fst (opt_depth_h ev h self (to_py z) (to_py ETeV)) = opt_depth ev st z ETeV"
proof -
  let ?h1 = "h @ [Floats (as_array ETeV)]"
  let ?h2 = "?h1 @ [Floats (as_array z)]"
  have "extends h ?h2"
    by (simp add: extends_def)
  then have rs2: "read_self ?h2 self = Some (self_z st, logE, self_tauSpline st)"
    using rs by (rule read_self_extends)
  have lz: "lookup ?h2 (Suc (length h)) = Some (Floats (as_array z))"
    by (simp add: lookup_def nth_append)
  have lE: "lookup ?h2 (length h) = Some (Floats (as_array ETeV))"
    by (simp add: lookup_def nth_append)
  show ?thesis
    using rs2 lz lE
    by (simp add: opt_depth_h_def as_array_h_to_py fst_opt_depth_body_1d opt_depth_def Let_def
        split: list.splits)
qed

section \<open>Properties of the model store\<close>

text \<open>
  C10. The energy grid is written in GeV and read as log10 of GeV: whatever the setter
  \<open>logEGeV\<close> does next, the attribute holds \<open>log10(E)\<close>, which the getter returns. For
  a non-empty array of positive energies that is never the array assigned, so setting
  and then getting is not the identity.
\<close>

theorem logEGeV_set_then_get:
  "list_all (\<lambda>e. 0 < e) E \<Longrightarrow>
     logEGeV_getter (after (logEGeV_setter self E)) = map log10 E \<and>
     (E \<noteq> [] \<longrightarrow> logEGeV_getter (after (logEGeV_setter self E)) \<noteq> E)"
proof -
  assume pos: "list_all (\<lambda>e. 0 < e) E"
  have get: "logEGeV_getter (after (logEGeV_setter self E)) = map log10 E"
    by (simp add: logEGeV_getter_def after_def logEGeV_setter_def Let_def
        split: sum.splits)
  show ?thesis
    using get map_log10_neq [OF _ pos] by simp
qed

theorem logEGeV_set_then_get_witness:
  "list_all (\<lambda>e. 0 < e) scenario_EGeV \<and>
   logEGeV_getter (after (logEGeV_setter scenario_store scenario_EGeV)) = [1, 2, 3] \<and>
   logEGeV_getter (after (logEGeV_setter scenario_store scenario_EGeV)) \<noteq> scenario_EGeV"
proof -
  have pos: "list_all (\<lambda>e. 0 < e) scenario_EGeV"
    by (simp add: scenario_EGeV_def)
  have ne: "scenario_EGeV \<noteq> []"
    by (simp add: scenario_EGeV_def)
  have "logEGeV_getter (after (logEGeV_setter scenario_store scenario_EGeV))
          = map log10 scenario_EGeV \<and>
        logEGeV_getter (after (logEGeV_setter scenario_store scenario_EGeV))
          \<noteq> scenario_EGeV"
    using ne logEGeV_set_then_get [OF pos, of scenario_store] by blast
  then show ?thesis
    using pos unfolding log10_scenario by auto
qed

text \<open>
  C8 as stated fails when the rebuild raises: the setter has assigned the new grid
  already and the surface is the one built before. Here the redshift grid of the
  scenario store, of length 3, is replaced by one of length 2. Afterwards an
  evaluation at redshift 0.1 warns, by the new grid, and returns the sample that the
  old surface has at 0.1.
\<close>

theorem setter_stale_surface_counterexample:
  "z_setter scenario_store [0.2, 0.6]
     = Inl (ShapeError, scenario_store\<lparr>self_z := [0.2, 0.6]\<rparr>) \<and>
   self_z (after (z_setter scenario_store [0.2, 0.6])) = [0.2, 0.6] \<and>
   sp_y (self_tauSpline (after (z_setter scenario_store [0.2, 0.6]))) = [0.1, 0.5, 1] \<and>
   \<not> surface_consistent (after (z_setter scenario_store [0.2, 0.6])) 2 2 \<and>
   opt_depth ev_samples (after (z_setter scenario_store [0.2, 0.6])) (Scalar 0.1) (Scalar 0.1)
     = Inr (A0 0.1, [RuntimeWarning])"
proof -
  have r: "z_setter scenario_store [0.2, 0.6]
     = Inl (ShapeError, scenario_store\<lparr>self_z := [0.2, 0.6]\<rparr>)"
    by (simp add: z_setter_def RBSpline_def Let_def shape_ok_def scenario_store_def
        scenario_tau_def)
  have a: "after (z_setter scenario_store [0.2, 0.6]) = scenario_store\<lparr>self_z := [0.2, 0.6]\<rparr>"
    unfolding after_def r by simp
  have g: "self_z (scenario_store\<lparr>self_z := [0.2, 0.6]\<rparr>) = 0.2 # [0.6]"
    by simp
  have v: "opt_depth ev_samples (scenario_store\<lparr>self_z := [0.2, 0.6]\<rparr>) (Scalar 0.1) (Scalar 0.1)
     = Inr (A0 0.1, [RuntimeWarning])"
    using opt_depth_eq [OF g, of "Scalar 0.1" ev_samples "Scalar 0.1"]
    by (simp add: squeeze_def tau_matrix_def log10_100 ev_samples_def scenario_store_def
        scenario_z_def scenario_tau_def)
  have c: "\<not> surface_consistent (scenario_store\<lparr>self_z := [0.2, 0.6]\<rparr>) 2 2"
    by (simp add: surface_consistent_def RBSpline_def shape_ok_def scenario_store_def
        scenario_tau_def)
  have y: "sp_y (self_tauSpline (scenario_store\<lparr>self_z := [0.2, 0.6]\<rparr>)) = [0.1, 0.5, 1]"
    by (simp add: scenario_store_def scenario_z_def)
  show ?thesis
    unfolding a using r v c y by simp
qed

text \<open>
  C8 as amended. Replacing one of the three grids with data that fits the two other
  grids returns, and the instance then holds the new grid, the two other grids as they
  were, and a surface rebuilt from these three grids with the default degrees 2 and 2.
  Replacing it with data that does not fit raises \<open>ShapeError\<close>, and the instance
  then holds the new grid and, apart from it, what it held before, the surface included.
\<close>

theorem setter_rebuilds_surface:
  "(shape_ok (self_tau self) (length (self_logEGeV self)) (length z) \<longrightarrow>
      (\<exists>self1. z_setter self z = Inr self1 \<and>
         self_z self1 = z \<and> self_logEGeV self1 = self_logEGeV self \<and>
         self_tau self1 = self_tau self \<and> surface_consistent self1 2 2)) \<and>
   (\<not> shape_ok (self_tau self) (length (self_logEGeV self)) (length z) \<longrightarrow>
      z_setter self z = Inl (ShapeError, self\<lparr>self_z := z\<rparr>)) \<and>
   (shape_ok (self_tau self) (length EGeV) (length (self_z self)) \<longrightarrow>
      (\<exists>self2. logEGeV_setter self EGeV = Inr self2 \<and>
         self_z self2 = self_z self \<and> self_logEGeV self2 = map log10 EGeV \<and>
         self_tau self2 = self_tau self \<and> surface_consistent self2 2 2)) \<and>
   (\<not> shape_ok (self_tau self) (length EGeV) (length (self_z self)) \<longrightarrow>
      logEGeV_setter self EGeV = Inl (ShapeError, self\<lparr>self_logEGeV := map log10 EGeV\<rparr>)) \<and>
   (shape_ok tau (length (self_logEGeV self)) (length (self_z self)) \<longrightarrow>
      (\<exists>self3. tau_setter self tau = Inr self3 \<and>
         self_z self3 = self_z self \<and> self_logEGeV self3 = self_logEGeV self \<and>
         self_tau self3 = tau \<and> surface_consistent self3 2 2)) \<and>
   (\<not> shape_ok tau (length (self_logEGeV self)) (length (self_z self)) \<longrightarrow>
      tau_setter self tau = Inl (ShapeError, self\<lparr>self_tau := tau\<rparr>))"
  by (simp add: z_setter_def logEGeV_setter_def tau_setter_def RBSpline_def Let_def
      surface_consistent_def)

theorem setter_rebuilds_surface_witness:
  "shape_ok (self_tau scenario_store) (length (self_logEGeV scenario_store))
     (length [0.2, 0.6, 1.2 :: real]) \<and>
   (\<exists>self1. z_setter scenario_store [0.2, 0.6, 1.2] = Inr self1 \<and>
      self_z self1 = [0.2, 0.6, 1.2] \<and> surface_consistent self1 2 2) \<and>
   shape_ok (self_tau scenario_store) (length [1, 10, 100 :: real])
     (length (self_z scenario_store)) \<and>
   (\<exists>self2. logEGeV_setter scenario_store [1, 10, 100] = Inr self2 \<and>
      self_logEGeV self2 = map log10 [1, 10, 100] \<and> surface_consistent self2 2 2) \<and>
   shape_ok [[0, 0, 0], [1, 1, 1], [2, 4, 8]] (length (self_logEGeV scenario_store))
     (length (self_z scenario_store)) \<and>
   (\<exists>self3. tau_setter scenario_store [[0, 0, 0], [1, 1, 1], [2, 4, 8]] = Inr self3 \<and>
      self_tau self3 = [[0, 0, 0], [1, 1, 1], [2, 4, 8]] \<and> surface_consistent self3 2 2) \<and>
   \<not> shape_ok (self_tau scenario_store) (length (self_logEGeV scenario_store))
       (length [0.2, 0.6 :: real]) \<and>
   z_setter scenario_store [0.2, 0.6]
     = Inl (ShapeError, scenario_store\<lparr>self_z := [0.2, 0.6]\<rparr>) \<and>
   \<not> shape_ok (self_tau scenario_store) (length [1, 10 :: real])
       (length (self_z scenario_store)) \<and>
   logEGeV_setter scenario_store [1, 10]
     = Inl (ShapeError, scenario_store\<lparr>self_logEGeV := map log10 [1, 10]\<rparr>) \<and>
   \<not> shape_ok [[1, 2, 3]] (length (self_logEGeV scenario_store))
       (length (self_z scenario_store)) \<and>
   tau_setter scenario_store [[1, 2, 3]]
     = Inl (ShapeError, scenario_store\<lparr>self_tau := [[1, 2, 3]]\<rparr>)"
proof -
  have ok1: "shape_ok (self_tau scenario_store) (length (self_logEGeV scenario_store))
     (length [0.2, 0.6, 1.2 :: real])"
    and ok2: "shape_ok (self_tau scenario_store) (length [1, 10, 100 :: real])
     (length (self_z scenario_store))"
    and ok3: "shape_ok [[0, 0, 0], [1, 1, 1], [2, 4, 8]] (length (self_logEGeV scenario_store))
     (length (self_z scenario_store))"
    by (simp_all add: shape_ok_def scenario_store_def scenario_tau_def scenario_z_def)
  have no1: "\<not> shape_ok (self_tau scenario_store) (length (self_logEGeV scenario_store))
       (length [0.2, 0.6 :: real])"
    and no2: "\<not> shape_ok (self_tau scenario_store) (length [1, 10 :: real])
       (length (self_z scenario_store))"
    and no3: "\<not> shape_ok [[1, 2, 3]] (length (self_logEGeV scenario_store))
       (length (self_z scenario_store))"
    by (simp_all add: shape_ok_def scenario_store_def scenario_tau_def scenario_z_def)
  note fits = setter_rebuilds_surface [of scenario_store "[0.2, 0.6, 1.2]" "[1, 10, 100]"
      "[[0, 0, 0], [1, 1, 1], [2, 4, 8]]"]
  note misfits = setter_rebuilds_surface [of scenario_store "[0.2, 0.6]" "[1, 10]" "[[1, 2, 3]]"]
  show ?thesis
    using ok1 ok2 ok3 no1 no2 no3 fits misfits by blast
qed

text \<open>
  C4 as stated fails for the setters: after the exception the instance is still there,
  holding the grid that was assigned and the surface built before. Here the tau grid of
  the scenario store, of shape (3, 3), is replaced by one of shape (4, 3).
\<close>

theorem setter_partial_state_counterexample:
  "tau_setter scenario_store [[0, 0, 0], [0, 0, 0], [0, 0, 0], [0, 0, 0]]
     = Inl (ShapeError,
            scenario_store\<lparr>self_tau := [[0, 0, 0], [0, 0, 0], [0, 0, 0], [0, 0, 0]]\<rparr>) \<and>
   scenario_store\<lparr>self_tau := [[0, 0, 0], [0, 0, 0], [0, 0, 0], [0, 0, 0]]\<rparr>
     \<noteq> scenario_store \<and>
   \<not> surface_consistent
       (scenario_store\<lparr>self_tau := [[0, 0, 0], [0, 0, 0], [0, 0, 0], [0, 0, 0]]\<rparr>) 2 2"
proof -
  have "self_tau scenario_store \<noteq> [[0, 0, 0], [0, 0, 0], [0, 0, 0], [0, 0, 0]]"
    by (simp add: scenario_store_def scenario_tau_def)
  then have ne: "scenario_store\<lparr>self_tau := [[0, 0, 0], [0, 0, 0], [0, 0, 0], [0, 0, 0]]\<rparr>
      \<noteq> scenario_store"
    by (metis optdepth.select_convs(3) optdepth.surjective optdepth.update_convs(3))
  have len: "length (self_logEGeV scenario_store) = 3"
    by (simp add: scenario_store_def)
  show ?thesis
    using ne len
    by (simp add: tau_setter_def RBSpline_def Let_def shape_ok_def surface_consistent_def)
qed

text \<open>
  C4 as amended. A tau grid whose shape is not (n, m) makes the constructor raise
  \<open>ShapeError\<close> and no instance results. The setter of a grid that does not fit the
  two others raises \<open>ShapeError\<close> as well, and the instance then holds the grid
  assigned, the two other grids and the surface it had before.
\<close>

theorem shape_mismatch_raises:
  "(\<not> shape_ok tau (length EGeV) (length z) \<longrightarrow>
      OptDepth_init z EGeV tau kx ky = Inl ShapeError) \<and>
   (\<not> shape_ok tau (length (self_logEGeV self)) (length (self_z self)) \<longrightarrow>
      tau_setter self tau = Inl (ShapeError, self\<lparr>self_tau := tau\<rparr>)) \<and>
   (\<not> shape_ok (self_tau self) (length (self_logEGeV self)) (length z) \<longrightarrow>
      z_setter self z = Inl (ShapeError, self\<lparr>self_z := z\<rparr>)) \<and>
   (\<not> shape_ok (self_tau self) (length EGeV) (length (self_z self)) \<longrightarrow>
      logEGeV_setter self EGeV = Inl (ShapeError, self\<lparr>self_logEGeV := map log10 EGeV\<rparr>))"
  by (simp add: OptDepth_init_def tau_setter_def z_setter_def logEGeV_setter_def
      RBSpline_def Let_def)

theorem shape_mismatch_raises_witness:
  "\<not> shape_ok [[0, 0, 0], [1, 1, 1], [2, 2, 2], [3, 3, 3]]
       (length [1, 10, 100, 1000, 10000 :: real]) (length [0.1, 0.5, 1 :: real]) \<and>
   OptDepth_init [0.1, 0.5, 1] [1, 10, 100, 1000, 10000]
       [[0, 0, 0], [1, 1, 1], [2, 2, 2], [3, 3, 3]] 2 2 = Inl ShapeError \<and>
   tau_setter scenario_store [[0, 0, 0], [1, 1, 1], [2, 2, 2], [3, 3, 3]]
     = Inl (ShapeError,
            scenario_store\<lparr>self_tau := [[0, 0, 0], [1, 1, 1], [2, 2, 2], [3, 3, 3]]\<rparr>) \<and>
   z_setter scenario_store [0.1, 0.5]
     = Inl (ShapeError, scenario_store\<lparr>self_z := [0.1, 0.5]\<rparr>) \<and>
   logEGeV_setter scenario_store [10, 100]
     = Inl (ShapeError, scenario_store\<lparr>self_logEGeV := map log10 [10, 100]\<rparr>)"
proof -
  have a: "\<not> shape_ok [[0, 0, 0], [1, 1, 1], [2, 2, 2], [3, 3, 3]]
       (length [1, 10, 100, 1000, 10000 :: real]) (length [0.1, 0.5, 1 :: real])"
    by (simp add: shape_ok_def)
  have b: "\<not> shape_ok [[0, 0, 0], [1, 1, 1], [2, 2, 2], [3, 3, 3]]
       (length (self_logEGeV scenario_store)) (length (self_z scenario_store))"
    by (simp add: shape_ok_def scenario_store_def)
  have c: "\<not> shape_ok (self_tau scenario_store)
       (length (self_logEGeV scenario_store)) (length [0.1, 0.5 :: real])"
    by (simp add: shape_ok_def scenario_store_def scenario_tau_def)
  have d: "\<not> shape_ok (self_tau scenario_store)
       (length [10, 100 :: real]) (length (self_z scenario_store))"
    by (simp add: shape_ok_def scenario_store_def scenario_tau_def)
  show ?thesis
    using a b c d
      shape_mismatch_raises [of "[[0, 0, 0], [1, 1, 1], [2, 2, 2], [3, 3, 3]]"
        "[1, 10, 100, 1000, 10000]" "[0.1, 0.5, 1]" 2 2 scenario_store]
      shape_mismatch_raises [of "[[0, 0, 0], [1, 1, 1], [2, 2, 2], [3, 3, 3]]"
        "[10, 100]" "[0.1, 0.5]" 2 2 scenario_store]
    by blast
qed

section \<open>Properties of the forward evaluator\<close>

text \<open>
  The sorting indices are a permutation of the positions, so every position of the
  caller is found among them, and the sorted array holds the caller's element there.
\<close>

lemma position_nth:
  "i \<in> set p \<Longrightarrow> position p i < length p \<and> p ! position p i = i"
  by (induction p) auto

lemma sort_position_argsort:
  assumes "i < length xs"
  shows "position (argsort xs) i < length xs \<and> sort xs ! position (argsort xs) i = xs ! i"
proof -
  have mem: "i \<in> set (argsort xs)"
    using assms by (simp add: set_argsort)
  have lt: "position (argsort xs) i < length (argsort xs)"
    and at: "argsort xs ! position (argsort xs) i = i"
    using position_nth [OF mem] by simp_all
  have "sort xs ! position (argsort xs) i
      = map ((!) xs) (argsort xs) ! position (argsort xs) i"
    by (simp add: argsort_nth)
  also have "\<dots> = xs ! i"
    using lt at by simp
  finally show ?thesis
    using lt by (simp add: length_argsort)
qed

lemma map_index: "map (\<lambda>i. g (xs ! i)) [0..<length xs] = map g xs"
  by (rule nth_equalityI) simp_all

lemma scatter_back_grid:
  "scatter_back (argsort zs) (argsort es)
     (map (\<lambda>x. map (\<lambda>y. ev s x y) (sort zs)) (map f (sort es)))
   = map (\<lambda>zi. map (\<lambda>E. ev s (f E) zi) es) zs"
proof -
  let ?G = "map (\<lambda>x. map (\<lambda>y. ev s x y) (sort zs)) (map f (sort es))"
  have cell: "?G ! position (argsort es) j ! position (argsort zs) i = ev s (f (es ! j)) (zs ! i)"
    if "i < length zs" "j < length es" for i j
    using sort_position_argsort [OF that(1)] sort_position_argsort [OF that(2)] by simp
  have "scatter_back (argsort zs) (argsort es) ?G
    = map (\<lambda>i. map (\<lambda>j. ev s (f (es ! j)) (zs ! i)) [0..<length es]) [0..<length zs]"
    unfolding scatter_back_def length_argsort
    using cell by (intro map_cong refl) simp
  also have "\<dots> = map (\<lambda>i. map (\<lambda>E. ev s (f E) (zs ! i)) es) [0..<length zs]"
    by (simp only: map_index [of "\<lambda>E. ev s (f E) _" es])
  also have "\<dots> = map (\<lambda>zi. map (\<lambda>E. ev s (f E) zi) es) zs"
    by (rule map_index [of "\<lambda>zi. map (\<lambda>E. ev s (f E) zi) es" zs])
  finally show ?thesis .
qed


lemma spline_call_scatter_back:
  assumes "spline_call ev s (map f (sort es)) (sort zs) = Inr G"
  shows "scatter_back (argsort zs) (argsort es) G = map (\<lambda>zi. map (\<lambda>E. ev s (f E) zi) es) zs"
proof -
  have "G = map (\<lambda>x. map (\<lambda>y. ev s x y) (sort zs)) (map f (sort es))"
    using assms by (simp add: spline_call_def split: if_splits)
  then show ?thesis
    by (simp only: scatter_back_grid)
qed

lemma opt_depth_scattered:
  assumes grid: "self_z self = z0 # zr"
  shows "opt_depth ev self (Array zs) (Array es) =
    (case spline_call ev (self_tauSpline self)
            (map (\<lambda>E. log10 (E * 1000)) (sort es)) (sort zs) of
       Inl e \<Rightarrow> Inl e
     | Inr G \<Rightarrow>
         Inr (squeeze (length zs) (length es) (scatter_back (argsort zs) (argsort es) G),
              if list_ex (\<lambda>x. x < z0) zs then [RuntimeWarning] else []))"
proof (cases "sorted (map (\<lambda>E. log10 (E * 1000)) (sort es))")
  case False
  then show ?thesis
    using opt_depth_unsorted [OF grid, of "Array es" ev "Array zs"]
    by (simp add: spline_call_def)
next
  case True
  then obtain G where G: "spline_call ev (self_tauSpline self)
      (map (\<lambda>E. log10 (E * 1000)) (sort es)) (sort zs) = Inr G"
    by (simp add: spline_call_def)
  have "scatter_back (argsort zs) (argsort es) G = tau_matrix ev self zs es"
    unfolding tau_matrix_def by (rule spline_call_scatter_back [OF G])
  then show ?thesis
    using opt_depth_eq_sorted [OF grid, of "Array es" ev "Array zs"] True G
    by simp
qed

lemma scenario_eval:
  "spline_call ev_samples (self_tauSpline scenario_store)
     (map (\<lambda>E. log10 (E * 1000)) (sort [1, 0.1])) (sort [1, 0.1, 0.5])
   = Inr [[0.1, 0.3, 0.5], [1, 2, 3]]"
  by (simp add: spline_call_def log10_100 log10_1000 ev_samples_def scenario_store_def
      scenario_z_def scenario_tau_def)

lemma scenario_argsort:
  "argsort [1, 0.1, 0.5] = [1, 2, 0]" "argsort [1, 0.1] = [1, 0]"
  by (simp_all add: argsort_def upt_rec)

lemma scenario_scatter_back:
  "squeeze (length [1, 0.1, 0.5 :: real]) (length [1, 0.1 :: real])
     (scatter_back [1, 2, 0] [1, 0] [[0.1, 0.3, 0.5], [1, 2, 3]])
   = A2 [[3, 0.5], [1, 0.1], [2, 0.3]]"
  by (simp add: scatter_back_def squeeze_def upt_rec)

text \<open>
  C3. The forward evaluator is invariant under permutation of its two arrays: for all
  arrays \<open>zs\<close> and \<open>es\<close> and all permutations \<open>p\<close> and \<open>q\<close> of their indices,
  \<open>opt_depth\<close> on the permuted arrays, with its result permuted back along both axes,
  is \<open>opt_depth\<close> on the original arrays: the same values and the same warnings, or the
  same exception. This is so because \<open>opt_depth\<close> calls the surface on the two sorted
  arrays and scatters the values back through the inverse of the two sorting
  permutations: the entry for the caller's redshift \<open>i\<close> and energy \<open>j\<close> is the value
  of the surface at \<open>zs[i]\<close> and \<open>es[j]\<close>, in whatever order the caller gave them.
\<close>

theorem opt_depth_permutation_invariant:
  assumes p: "mset p = mset [0..<length zs]"
    and q: "mset q = mset [0..<length es]"
  shows "(case opt_depth ev self (Array (permute p zs)) (Array (permute q es)) of
            Inl e \<Rightarrow> Inl e
          | Inr (r, w) \<Rightarrow> Inr (unpermute_result p q r, w))
         = opt_depth ev self (Array zs) (Array es) \<and>
         opt_depth ev self (Array zs) (Array es)
         = (case self_z self of
              [] \<Rightarrow> Inl IndexError
            | z0 # zr \<Rightarrow>
                (case spline_call ev (self_tauSpline self)
                        (map (\<lambda>E. log10 (E * 1000)) (sort es)) (sort zs) of
                   Inl e \<Rightarrow> Inl e
                 | Inr G \<Rightarrow>
                     Inr (squeeze (length zs) (length es)
                            (scatter_back (argsort zs) (argsort es) G),
                          if list_ex (\<lambda>x. x < z0) zs then [RuntimeWarning] else []))) \<and>
         (\<forall>G. spline_call ev (self_tauSpline self)
                 (map (\<lambda>E. log10 (E * 1000)) (sort es)) (sort zs) = Inr G
              \<longrightarrow> scatter_back (argsort zs) (argsort es) G = tau_matrix ev self zs es)"
proof (intro conjI allI impI)
  show "(case opt_depth ev self (Array (permute p zs)) (Array (permute q es)) of
            Inl e \<Rightarrow> Inl e
          | Inr (r, w) \<Rightarrow> Inr (unpermute_result p q r, w))
         = opt_depth ev self (Array zs) (Array es)"
  proof (cases "self_z self")
    case Nil
    then show ?thesis
      by (simp add: opt_depth_no_grid)
  next
    case (Cons z0 zr)
    let ?x = "map (\<lambda>E. log10 (E * 1000)) (sort es)"
    have se: "sort (permute q es) = sort es"
      by (rule sort_permute [OF q])
    show ?thesis
    proof (cases "sorted ?x")
      case False
      then show ?thesis
        using opt_depth_unsorted [OF Cons, of "Array es" ev "Array zs"]
          opt_depth_unsorted [OF Cons, of "Array (permute q es)" ev "Array (permute p zs)"] se
        by simp
    next
      case True
      have warn: "list_ex (\<lambda>x. x < z0) (permute p zs) = list_ex (\<lambda>x. x < z0) zs"
        using set_permute [OF p] by (simp add: list_ex_iff)
      have a: "opt_depth ev self (Array (permute p zs)) (Array (permute q es)) =
          Inr (squeeze (length zs) (length es) (tau_matrix ev self (permute p zs) (permute q es)),
               if list_ex (\<lambda>x. x < z0) zs then [RuntimeWarning] else [])"
        using opt_depth_eq_sorted [OF Cons, of "Array (permute q es)" ev "Array (permute p zs)"]
          True se warn length_permute [OF p] length_permute [OF q]
        by simp
      have b: "opt_depth ev self (Array zs) (Array es) =
          Inr (squeeze (length zs) (length es) (tau_matrix ev self zs es),
               if list_ex (\<lambda>x. x < z0) zs then [RuntimeWarning] else [])"
        using opt_depth_eq_sorted [OF Cons, of "Array es" ev "Array zs"] True by simp
      show ?thesis
        using a b unpermute_tau_matrix [OF p q, of ev self] by simp
    qed
  qed
next
  show "opt_depth ev self (Array zs) (Array es)
         = (case self_z self of
              [] \<Rightarrow> Inl IndexError
            | z0 # zr \<Rightarrow>
                (case spline_call ev (self_tauSpline self)
                        (map (\<lambda>E. log10 (E * 1000)) (sort es)) (sort zs) of
                   Inl e \<Rightarrow> Inl e
                 | Inr G \<Rightarrow>
                     Inr (squeeze (length zs) (length es)
                            (scatter_back (argsort zs) (argsort es) G),
                          if list_ex (\<lambda>x. x < z0) zs then [RuntimeWarning] else [])))"
  proof (cases "self_z self")
    case Nil
    then show ?thesis
      by (simp add: opt_depth_no_grid)
  next
    case (Cons z0 zr)
    then show ?thesis
      by (simp add: opt_depth_scattered [OF Cons])
  qed
next
  fix G
  assume "spline_call ev (self_tauSpline self)
            (map (\<lambda>E. log10 (E * 1000)) (sort es)) (sort zs) = Inr G"
  then show "scatter_back (argsort zs) (argsort es) G = tau_matrix ev self zs es"
    unfolding tau_matrix_def by (rule spline_call_scatter_back)
qed

theorem opt_depth_permutation_invariant_witness:
  "mset [1, 2, 0] = mset [0..<length [1, 0.1, 0.5 :: real]] \<and>
   mset [1, 0] = mset [0..<length [1, 0.1 :: real]] \<and>
   opt_depth ev_samples scenario_store (Array [1, 0.1, 0.5]) (Array [1, 0.1])
     = Inr (A2 [[3, 0.5], [1, 0.1], [2, 0.3]], []) \<and>
   (case opt_depth ev_samples scenario_store
           (Array (permute [1, 2, 0] [1, 0.1, 0.5])) (Array (permute [1, 0] [1, 0.1])) of
      Inl e \<Rightarrow> Inl e
    | Inr (r, w) \<Rightarrow> Inr (unpermute_result [1, 2, 0] [1, 0] r, w))
     = Inr (A2 [[3, 0.5], [1, 0.1], [2, 0.3]], []) \<and>
   spline_call ev_samples (self_tauSpline scenario_store)
     (map (\<lambda>E. log10 (E * 1000)) (sort [1, 0.1])) (sort [1, 0.1, 0.5])
     = Inr [[0.1, 0.3, 0.5], [1, 2, 3]] \<and>
   scatter_back (argsort [1, 0.1, 0.5]) (argsort [1, 0.1]) [[0.1, 0.3, 0.5], [1, 2, 3]]
     = tau_matrix ev_samples scenario_store [1, 0.1, 0.5] [1, 0.1]"
proof -
  have p: "mset [1, 2, 0] = mset [0..<length [1, 0.1, 0.5 :: real]]"
    by (simp add: upt_rec)
  have q: "mset [1, 0] = mset [0..<length [1, 0.1 :: real]]"
    by (simp add: upt_rec)
  note t = opt_depth_permutation_invariant [OF p q, of ev_samples scenario_store]
  have g: "self_z scenario_store = [0.1, 0.5, 1]"
    by (simp add: scenario_store_def scenario_z_def)
  have v: "opt_depth ev_samples scenario_store (Array [1, 0.1, 0.5]) (Array [1, 0.1])
     = Inr (A2 [[3, 0.5], [1, 0.1], [2, 0.3]], [])"
    using t [THEN conjunct2, THEN conjunct1]
    unfolding g list.case scenario_eval sum.case scenario_argsort scenario_scatter_back
    by simp
  have s: "scatter_back (argsort [1, 0.1, 0.5]) (argsort [1, 0.1]) [[0.1, 0.3, 0.5], [1, 2, 3]]
     = tau_matrix ev_samples scenario_store [1, 0.1, 0.5] [1, 0.1]"
    using t [THEN conjunct2, THEN conjunct2] scenario_eval by blast
  have i: "(case opt_depth ev_samples scenario_store
           (Array (permute [1, 2, 0] [1, 0.1, 0.5])) (Array (permute [1, 0] [1, 0.1])) of
      Inl e \<Rightarrow> Inl e
    | Inr (r, w) \<Rightarrow> Inr (unpermute_result [1, 2, 0] [1, 0] r, w))
     = Inr (A2 [[3, 0.5], [1, 0.1], [2, 0.3]], [])"
    using v t [THEN conjunct1] by simp
  show ?thesis
    using p q v i scenario_eval s by blast
qed



text \<open>
  C6 fails on the code: \<open>np.squeeze\<close> removes every axis of length 1, also the axis
  of an argument that was passed as an array of one element. On the scenario store, the
  array \<open>[0.5]\<close> of redshifts with an array of two energies gives a 1-D result of
  length 2, not a (1 x 2) matrix; with a scalar energy it gives a 0-D result, not a 1-D
  result of length 1.
\<close>

theorem squeeze_removes_array_axis:
  "opt_depth ev scenario_store (Array [0.5]) (Array [0.1, 1]) =
     Inr (A1 [ev (self_tauSpline scenario_store) 2 0.5,
              ev (self_tauSpline scenario_store) 3 0.5], []) \<and>
   opt_depth ev scenario_store (Array [0.5]) (Scalar 0.1) =
     Inr (A0 (ev (self_tauSpline scenario_store) 2 0.5), [])"
proof -
  have g: "self_z scenario_store = 0.1 # [0.5, 1]"
    by (simp add: scenario_store_def scenario_z_def)
  have a: "opt_depth ev scenario_store (Array [0.5]) (Array [0.1, 1]) =
     Inr (A1 [ev (self_tauSpline scenario_store) 2 0.5,
              ev (self_tauSpline scenario_store) 3 0.5], [])"
    using opt_depth_eq [OF g, of "Array [0.1, 1]" ev "Array [0.5]"]
    by (simp add: squeeze_def tau_matrix_def log10_100 log10_1000)
  have b: "opt_depth ev scenario_store (Array [0.5]) (Scalar 0.1) =
     Inr (A0 (ev (self_tauSpline scenario_store) 2 0.5), [])"
    using opt_depth_eq [OF g, of "Scalar 0.1" ev "Array [0.5]"]
    by (simp add: squeeze_def tau_matrix_def log10_100)
  show ?thesis using a b by simp
qed

text \<open>
  C1. With a surface that interpolates its samples, a store constructed with degrees
  \<open>kx = ky = k\<close>, \<open>k\<close> at least 1, from strictly increasing grids and positive energies
  returns, for the \<open>j\<close>-th redshift of the grid and the \<open>i\<close>-th energy of the grid
  converted from GeV to TeV, exactly \<open>tau[i, j]\<close>, as a 0-D result and without a warning.
  In the scenario of the spec, \<open>opt_depth(0.5, 0.1)\<close> is 0.3.
\<close>

theorem opt_depth_at_grid_point:
  assumes ip: "interpolates ev"
    and init: "OptDepth_init z EGeV tau k k = Inr self"
    and k: "1 \<le> k"
    and zs: "sorted_wrt (<) z"
    and Es: "sorted_wrt (<) EGeV"
    and pos: "list_all (\<lambda>e. 0 < e) EGeV"
    and i: "i < length EGeV"
    and j: "j < length z"
  shows "opt_depth ev self (Scalar (z ! j)) (Scalar (EGeV ! i / 1000)) = Inr (A0 (tau ! i ! j), [])"
proof -
  let ?s = "\<lparr>sp_x = map log10 EGeV, sp_y = z, sp_z = tau, sp_kx = k, sp_ky = k\<rparr>"
  have self: "self = \<lparr>self_z = z, self_logEGeV = map log10 EGeV, self_tau = tau,
                       self_tauSpline = ?s\<rparr>"
    using init by (auto simp: OptDepth_init_def RBSpline_def Let_def split: if_splits)
  obtain z0 zr where g: "z = z0 # zr"
    using j by (cases z) auto
  have g': "self_z self = z0 # zr"
    using self g by simp
  have Ei: "0 < EGeV ! i"
    using pos i by (simp add: list_all_length)
  then have pos': "list_all (\<lambda>e. 0 < e) (as_array (Scalar (EGeV ! i / 1000)))"
    by simp
  have "sorted z"
    using zs by (rule sorted_wrt_mono_rel [rotated]) simp
  then have "z0 \<le> z ! j"
    using g j by (cases j) auto
  then have nowarn: "\<not> list_ex (\<lambda>x. x < z0) (as_array (Scalar (z ! j)))"
    by simp
  have "1 \<le> sp_kx ?s \<and> 1 \<le> sp_ky ?s \<and>
        sorted_wrt (<) (sp_x ?s) \<and> sorted_wrt (<) (sp_y ?s) \<and>
        i < length (sp_x ?s) \<and> j < length (sp_y ?s)
        \<longrightarrow> ev ?s (sp_x ?s ! i) (sp_y ?s ! j) = sp_z ?s ! i ! j"
    using ip unfolding interpolates_def by blast
  then have val: "ev ?s (log10 (EGeV ! i)) (z ! j) = tau ! i ! j"
    using k zs sorted_wrt_map_log10 [OF Es pos] i j by simp
  show ?thesis
    using opt_depth_eq [OF g' pos', of ev "Scalar (z ! j)"] nowarn val self
    by (simp add: squeeze_def tau_matrix_def)
qed

theorem opt_depth_at_grid_point_witness:
  "interpolates ev_samples \<and>
   OptDepth_init scenario_z scenario_EGeV scenario_tau 2 2 = Inr scenario_store \<and>
   (1 :: nat) \<le> 2 \<and> sorted_wrt (<) scenario_z \<and> sorted_wrt (<) scenario_EGeV \<and>
   list_all (\<lambda>e. 0 < e) scenario_EGeV \<and>
   1 < length scenario_EGeV \<and> 1 < length scenario_z \<and>
   opt_depth ev_samples scenario_store (Scalar 0.5) (Scalar 0.1) = Inr (A0 0.3, [])"
proof -
  have k: "(1 :: nat) \<le> 2" by simp
  have zs: "sorted_wrt (<) scenario_z" by (simp add: scenario_z_def)
  have Es: "sorted_wrt (<) scenario_EGeV" by (simp add: scenario_EGeV_def)
  have pos: "list_all (\<lambda>e. 0 < e) scenario_EGeV" by (simp add: scenario_EGeV_def)
  have i: "1 < length scenario_EGeV" by (simp add: scenario_EGeV_def)
  have j: "1 < length scenario_z" by (simp add: scenario_z_def)
  have vals: "scenario_z ! 1 = 0.5" "scenario_EGeV ! 1 / 1000 = 0.1"
    "scenario_tau ! 1 ! 1 = 0.3"
    by (simp_all add: scenario_z_def scenario_EGeV_def scenario_tau_def)
  show ?thesis
    using interpolates_ev_samples scenario_store_init k zs Es pos i j
      opt_depth_at_grid_point [OF interpolates_ev_samples scenario_store_init k zs Es pos i j]
    unfolding vals by blast
qed

section \<open>Properties of the bin averager and of all evaluation methods\<close>

text \<open>
  C2 fails on the code: with at least one bin and at least two integration steps, the
  loop of \<open>opt_depth_Ebin\<close> raises \<open>ValueError\<close> in its first iteration, on any
  instance with a non-empty redshift grid, so no bin average is returned. The call of
  line 361 passes the 2-D array of the grids appended so far, of shape (1, Esteps);
  \<open>opt_depth\<close> sizes \<open>tt\<close> by the number of rows, 1, and cannot assign Esteps values
  to a row of length 1.
\<close>

theorem opt_depth_Ebin_raises:
  assumes rs: "read_self h self = Some (z0 # zr, logE, s)"
    and steps: "2 \<le> Esteps"
  shows "fst (opt_depth_Ebin_loop_h ev h self z (E0 # E1 # Ebin) Esteps [] [] [])
           = Inl ValueError"
proof -
  let ?g = "linspace (ln E0) (ln E1) Esteps"
  let ?h2 = "h @ [Floats ?g, Floats2 [map exp ?g]]"
  let ?h3 = "?h2 @ [Floats [z]]"
  have "extends h ?h3"
    by (simp add: extends_def)
  then have rs3: "read_self ?h3 self = Some (z0 # zr, logE, s)"
    using rs by (rule read_self_extends)
  have lz: "lookup ?h3 (Suc (Suc (length h))) = Some (Floats [z])"
    by (simp add: lookup_def nth_append)
  have lE: "lookup ?h3 (Suc (length h)) = Some (Floats2 [map exp ?g])"
    by (simp add: lookup_def nth_append)
  have "2 \<le> length (map exp ?g)"
    using steps by (simp add: length_linspace)
  then have body: "fst (opt_depth_body ev ?h3 s z0 [z] (Inr [map exp ?g])) = Inl ValueError"
    by (rule body_2d_raises)
  have call: "fst (opt_depth_h ev ?h2 self (PyFloat z) (NdArray (Suc (length h))))
      = Inl ValueError"
    using rs3 lz lE body by (simp add: opt_depth_h_def alloc_def)
  obtain r h4 where r: "opt_depth_h ev ?h2 self (PyFloat z) (NdArray (Suc (length h))) = (r, h4)"
    by (cases "opt_depth_h ev ?h2 self (PyFloat z) (NdArray (Suc (length h)))")
  then have "r = Inl ValueError"
    using call by simp
  then show ?thesis
    using r by (simp add: Let_def alloc_def)
qed

theorem opt_depth_Ebin_raises_witness:
  "read_self scenario_heap 4
     = Some (0.1 # [0.5, 1], [1, 2, 3], self_tauSpline scenario_store) \<and>
   (2 :: nat) \<le> 50 \<and>
   fst (opt_depth_Ebin_loop_h ev_samples scenario_heap 4 0.5 (0.1 # 1 # []) 50 [] [] [])
     = Inl ValueError"
proof -
  have rs: "read_self scenario_heap 4
      = Some (0.1 # [0.5, 1], [1, 2, 3], self_tauSpline scenario_store)"
    by (simp add: read_self_def lookup_def scenario_heap_def scenario_z_def)
  have st: "(2 :: nat) \<le> 50"
    by simp
  show ?thesis
    using rs st opt_depth_Ebin_raises [OF rs st, of ev_samples "0.5" "0.1" 1 "[]"]
    by blast
qed

text \<open>
  C9. Each evaluation method leaves every object of the store as it was: the instance,
  its three grids, its surface, and the arrays passed as arguments. The arrays that
  \<open>opt_depth\<close> assigns into (\<open>tt\<close> and \<open>result\<close>) and the sorted copies are cells
  allocated by the call.
\<close>

theorem evaluation_leaves_store_unchanged:
  "take (length h) (snd (opt_depth_h ev h self z ETeV)) = h \<and>
   take (length h) (snd (opt_depth_inverse_h ev us h self z' tau)) = h \<and>
   take (length h)
     (snd (opt_depth_Ebin_loop_h ev h self z' Ebin Esteps logE_array t_array ws)) = h"
  by (simp add: extends_opt_depth [OF extends_refl, unfolded extends_def]
      extends_inverse [OF extends_refl, unfolded extends_def]
      extends_Ebin_loop [OF extends_refl, unfolded extends_def])

end
